theory Spec2Isabelle
  imports Main "HOL-Library.AList"
begin

text \<open>
  The GitHub action project-update sets fields of one item of a project. \<open>getInputs\<close>
  reads the two comma-separated inputs \<open>field-names\<close> and \<open>field-values\<close> into an object
  keyed by field name; \<open>run\<close> fetches the fields of the project once and, for each entry
  of that object, finds the field by name, turns the value into the id of an iteration
  or of an option where the field has such settings, and sends the update. This theory
  embeds those two functions of the current source file (lines 32 to 42 and 138 to 186)
  and proves what they do. The older source file \<open>projects.ts\<close> has the same \<open>getInputs\<close>
  and the same comparison of field names.
\<close>

section \<open>Strings and the JavaScript primitives the action uses\<close>

text \<open>
  A JavaScript string is a sequence of UTF-16 code units. The model uses \<open>string\<close>:
  a \<open>char\<close> stands for a code unit below 256 (ASCII and the Latin-1 supplement), which
  is the range in which the functions below agree with the ECMAScript definitions.
\<close>

definition code_unit :: "char \<Rightarrow> nat" where
  "code_unit c = of_char c"

text \<open>\<open>String.prototype.toLowerCase\<close>: A-Z and the Latin-1 capitals (U+00C0 to U+00DE,
  the multiplication sign U+00D7 apart) move up by 32; every other code unit stays.\<close>

definition lower_char :: "char \<Rightarrow> char" where
  "lower_char c =
     (let n = code_unit c in
      if (65 \<le> n \<and> n \<le> 90) \<or> (192 \<le> n \<and> n \<le> 222 \<and> n \<noteq> 215)
      then char_of (n + 32) else c)"

definition toLowerCase :: "string \<Rightarrow> string" where
  "toLowerCase s = map lower_char s"

text \<open>\<open>value.startsWith('[')\<close>, \<open>value.endsWith(']')\<close> and \<open>value.slice(1, -1)\<close>.\<close>

definition startsWith :: "string \<Rightarrow> char \<Rightarrow> bool" where
  "startsWith s c = (case s of [] \<Rightarrow> False | x # _ \<Rightarrow> x = c)"

definition endsWith :: "string \<Rightarrow> char \<Rightarrow> bool" where
  "endsWith s c = (case rev s of [] \<Rightarrow> False | x # _ \<Rightarrow> x = c)"

definition slice_1_m1 :: "string \<Rightarrow> string" where
  "slice_1_m1 s = butlast (tl s)"

text \<open>\<open>s.split(',')\<close>: the pieces between the commas; the empty string gives one empty
  piece. \<open>cur\<close> holds the piece being read, reversed.\<close>

fun split_from :: "string \<Rightarrow> string \<Rightarrow> string list" where
  "split_from cur [] = [rev cur]"
| "split_from cur (c # cs) =
     (if c = CHR '','' then rev cur # split_from [] cs else split_from (c # cur) cs)"

definition split_comma :: "string \<Rightarrow> string list" where
  "split_comma s = split_from [] s"

text \<open>Reading \<open>xs[i]\<close> for a number \<open>i\<close>: \<open>undefined\<close> (here \<open>None\<close>) outside the array,
  also for a negative index.\<close>

definition nth_js :: "'a list \<Rightarrow> int \<Rightarrow> 'a option" where
  "nth_js xs i = (if 0 \<le> i \<and> i < int (length xs) then Some (xs ! nat i) else None)"

subsection \<open>parseInt\<close>

text \<open>
  \<open>parseInt(string)\<close> with no radix: leading white space is skipped, one sign is read, a
  prefix \<open>0x\<close> or \<open>0X\<close> selects radix 16, and the longest run of digits of the radix is
  the number; with no digit the result is \<open>NaN\<close>, here \<open>None\<close>. Anything after the digits
  is ignored. The result is kept as an exact integer: a JavaScript number is exact below
  2^53 and an array holds fewer than 2^32 elements, so as an array index the two agree.
\<close>

definition is_white :: "char \<Rightarrow> bool" where
  "is_white c = (code_unit c \<in> {9, 10, 11, 12, 13, 32, 160})"

definition digit_value :: "char \<Rightarrow> nat option" where
  "digit_value c =
     (let n = code_unit c in
      if 48 \<le> n \<and> n \<le> 57 then Some (n - 48)
      else if 97 \<le> n \<and> n \<le> 122 then Some (n - 87)
      else if 65 \<le> n \<and> n \<le> 90 then Some (n - 55)
      else None)"

definition is_radix_digit :: "nat \<Rightarrow> char \<Rightarrow> bool" where
  "is_radix_digit R c = (case digit_value c of None \<Rightarrow> False | Some d \<Rightarrow> d < R)"

definition radix_value :: "nat \<Rightarrow> string \<Rightarrow> int" where
  "radix_value R Z =
     foldl (\<lambda>acc c. acc * int R + (case digit_value c of None \<Rightarrow> 0 | Some d \<Rightarrow> int d)) 0 Z"

definition parseInt :: "string \<Rightarrow> int option" where
  "parseInt inputString =
     (let S = dropWhile is_white inputString;
          sign = (if startsWith S CHR ''-'' then - 1 else 1 :: int);
          S1 = (if startsWith S CHR ''+'' \<or> startsWith S CHR ''-'' then tl S else S);
          hex = (case S1 of a # b # _ \<Rightarrow> a = CHR ''0'' \<and> (b = CHR ''x'' \<or> b = CHR ''X'') | _ \<Rightarrow> False);
          R = (if hex then 16 else 10);
          S2 = (if hex then drop 2 S1 else S1);
          Z = takeWhile (is_radix_digit R) S2
      in if Z = [] then None else Some (sign * radix_value R Z))"

text \<open>The decimal text of an integer, as \<open>String(i)\<close> prints it. The source never prints
  an index; these two functions only name the inputs \<open>[0]\<close>, \<open>[1]\<close>, \<open>[-1]\<close>, ...\<close>

definition digit_char :: "nat \<Rightarrow> char" where
  "digit_char d = char_of (48 + d)"

fun decimal :: "nat \<Rightarrow> string" where
  "decimal n = (if n < 10 then [digit_char n] else decimal (n div 10) @ [digit_char (n mod 10)])"

declare decimal.simps [simp del]

definition show_int :: "int \<Rightarrow> string" where
  "show_int i = (if i < 0 then CHR ''-'' # decimal (nat (- i)) else decimal (nat i))"

definition bracket_index :: "int \<Rightarrow> string" where
  "bracket_index i = CHR ''['' # show_int i @ [CHR '']'']"

section \<open>The schema: field descriptors and their settings\<close>

text \<open>
  \<open>projectFieldsGet\<close> returns the project's fields with \<open>settings\<close> parsed from JSON. The
  code reads \<open>field.id\<close>, \<open>field.name\<close>, \<open>field.settings\<close> (may be null),
  \<open>settings.configuration?.iterations\<close>, \<open>settings.configuration.completed_iterations\<close>
  and \<open>settings.options\<close>. An iteration configuration carries both lists, as the API
  sends them.
\<close>

record iteration =
  iteration_id :: string
  title :: string

record project_option =
  option_id :: string
  option_name :: string

record configuration =
  iterations :: "iteration list"
  completed_iterations :: "iteration list"

record field_settings =
  configuration :: "configuration option"
  options :: "project_option list option"

record field =
  field_id :: string
  field_name :: string
  settings :: "field_settings option"

section \<open>run: matching a field and resolving its value\<close>

text \<open>\<open>projectFields.find((field) => name === field.name)\<close>: the first field whose name
  is the requested name, compared with \<open>===\<close>.\<close>

definition find_field :: "field list \<Rightarrow> string \<Rightarrow> field option" where
  "find_field projectFields name = find (\<lambda>field. name = field_name field) projectFields"

text \<open>The predicate of both branches: \<open>value.startsWith('[') && value.endsWith(']')\<close>.\<close>

definition bracket_shaped :: "string \<Rightarrow> bool" where
  "bracket_shaped v = (startsWith v CHR ''['' \<and> endsWith v CHR '']'')"

text \<open>The variable \<open>iteration\<close> after the iteration branch of \<open>run\<close>: by index into
  \<open>iterations\<close> for a bracketed value, else by title in \<open>iterations\<close>, then in
  \<open>completed_iterations\<close>.\<close>

definition find_iteration :: "configuration \<Rightarrow> string \<Rightarrow> iteration option" where
  "find_iteration cfg v =
     (if bracket_shaped v then
        (case parseInt (slice_1_m1 v) of
           None \<Rightarrow> None
         | Some index \<Rightarrow> nth_js (iterations cfg) index)
      else
        (case find (\<lambda>i. toLowerCase (title i) = toLowerCase v) (iterations cfg) of
           Some i \<Rightarrow> Some i
         | None \<Rightarrow> find (\<lambda>i. toLowerCase (title i) = toLowerCase v) (completed_iterations cfg)))"

text \<open>The variable \<open>option\<close> after the option branch of \<open>run\<close>.\<close>

definition find_option :: "project_option list \<Rightarrow> string \<Rightarrow> project_option option" where
  "find_option opts v =
     (if bracket_shaped v then
        (case parseInt (slice_1_m1 v) of
           None \<Rightarrow> None
         | Some index \<Rightarrow> nth_js opts index)
      else find (\<lambda>opt. toLowerCase (option_name opt) = toLowerCase v) opts)"

text \<open>The variable \<open>_value\<close> when the update is sent: it starts as \<open>value\<close> and is
  replaced by an id only when an iteration or an option was found. The iteration branch
  is tested first; the option branch is its \<open>else if\<close>.\<close>

definition resolve_value :: "field \<Rightarrow> string \<Rightarrow> string" where
  "resolve_value field v =
     (case settings field of
        None \<Rightarrow> v
      | Some s \<Rightarrow>
          (case configuration s of
             Some cfg \<Rightarrow>
               (case find_iteration cfg v of Some iteration \<Rightarrow> iteration_id iteration | None \<Rightarrow> v)
           | None \<Rightarrow>
               (case options s of
                  Some opts \<Rightarrow>
                    (case find_option opts v of Some opt \<Rightarrow> option_id opt | None \<Rightarrow> v)
                | None \<Rightarrow> v)))"

text \<open>
  The three lines \<open>run\<close> writes for a pair, as data: the field was not found; the update
  went through (name, value sent, the id of the returned item when there is one); the
  update threw (name, value sent, the text \<open>JSON.stringify(err, null, 2)\<close> of the error
  caught).
\<close>

datatype outcome =
  FieldNotFound string
| Updated string string "string option"
| UpdateFailed string string string



text \<open>
  \<open>projectFieldUpdate(projectId, itemId, fieldId, value)\<close> is the GraphQL mutation; the
  remote side is a parameter of the model. It takes the state of the remote side and
  returns the new state with either the error it threw (\<open>Inl\<close>) or the id of the item
  it returned, if any (\<open>Inr\<close>). An error is any JavaScript value, here of a type \<open>'e\<close>.
\<close>

type_synonym ('w, 'e) transport =
  "'w \<Rightarrow> string \<Rightarrow> string \<Rightarrow> string \<Rightarrow> string \<Rightarrow> ('e + string option) \<times> 'w"

text \<open>
  The \<open>catch\<close> block writes \<open>JSON.stringify(err, null, 2)\<close> into its line. That call is
  the second parameter of the model: it gives the text written (the text \<open>undefined\<close>
  where \<open>JSON.stringify\<close> returns undefined), or \<open>None\<close> where it throws, as it does on a
  value that refers to itself or holds a BigInt. Nothing catches that exception: it
  leaves \<open>run\<close>.
\<close>

type_synonym 'e stringify = "'e \<Rightarrow> string option"

text \<open>The body of the \<open>for\<close> loop of \<open>run\<close> for one pair \<open>[name, value]\<close>: \<open>continue\<close>
  when no field has the name, else resolve the value and send the update inside
  \<open>try\<close>/\<open>catch\<close>. The result is the line written and the new state of the remote side;
  the line is \<open>None\<close> when the \<open>catch\<close> block itself threw.\<close>

definition run_body ::
  "'e stringify \<Rightarrow> ('w, 'e) transport \<Rightarrow> string \<Rightarrow> string \<Rightarrow> field list \<Rightarrow> 'w \<Rightarrow> string \<times> string
     \<Rightarrow> outcome option \<times> 'w"
where
  "run_body stringify projectFieldUpdate projectId itemId projectFields w p =
     (case p of (name, v) \<Rightarrow>
        (case find_field projectFields name of
           None \<Rightarrow> (Some (FieldNotFound name), w)
         | Some field \<Rightarrow>
             (case projectFieldUpdate w projectId itemId (field_id field) (resolve_value field v) of
                (Inr item, w') \<Rightarrow> (Some (Updated name (resolve_value field v) item), w')
              | (Inl err, w') \<Rightarrow>
                  (case stringify err of
                     Some text \<Rightarrow> (Some (UpdateFailed name (resolve_value field v) text), w')
                   | None \<Rightarrow> (None, w')))))"

text \<open>How the loop ended: it went through all the pairs, or an exception left \<open>run\<close>
  at some pair and the pairs after it were never looked at.\<close>

datatype completion = Completed | Aborted

text \<open>The \<open>for\<close> loop over the pairs: \<open>log\<close> is what was written so far, \<open>w\<close> the state
  of the remote side.\<close>

fun run_loop ::
  "'e stringify \<Rightarrow> ('w, 'e) transport \<Rightarrow> string \<Rightarrow> string \<Rightarrow> field list \<Rightarrow> 'w \<Rightarrow> outcome list \<Rightarrow>
     (string \<times> string) list \<Rightarrow> outcome list \<times> 'w \<times> completion"
where
  "run_loop str upd projectId itemId projectFields w log [] = (log, w, Completed)"
| "run_loop str upd projectId itemId projectFields w log (p # ps) =
     (case run_body str upd projectId itemId projectFields w p of
        (Some out, w') \<Rightarrow> run_loop str upd projectId itemId projectFields w' (log @ [out]) ps
      | (None, w') \<Rightarrow> (log, w', Aborted))"

section \<open>getInputs: the fields object\<close>

text \<open>
  \<open>ret.fields\<close> is a plain object used as a dictionary. The model keeps its own
  properties in creation order. \<open>obj[f] = v\<close> replaces the value of an existing key in
  place and appends a new key, except for the key \<open>__proto__\<close>: on an object literal
  that assignment reaches the accessor of \<open>Object.prototype\<close>, which ignores a string,
  so no property is stored.
\<close>

type_synonym js_object = "(string \<times> string) list"

definition set_property :: "js_object \<Rightarrow> string \<Rightarrow> string \<Rightarrow> js_object" where
  "set_property obj k v = (if k = ''__proto__'' then obj else AList.update k v obj)"

text \<open>An array index is the canonical decimal text (digits only, no leading zero) of
  an integer below 2^32 - 1.
  \<open>Object.entries\<close> lists the array-index keys first, in ascending numeric order, then
  the other keys in creation order.\<close>

definition array_index :: "string \<Rightarrow> int option" where
  "array_index k =
     (if k \<noteq> [] \<and> list_all (is_radix_digit 10) k \<and> (k = ''0'' \<or> \<not> startsWith k CHR ''0'')
         \<and> radix_value 10 k < 2 ^ 32 - 1
      then Some (radix_value 10 k) else None)"

definition object_entries :: "js_object \<Rightarrow> (string \<times> string) list" where
  "object_entries obj =
     sort_key (\<lambda>(k, v). case array_index k of Some n \<Rightarrow> n | None \<Rightarrow> 0)
       (filter (\<lambda>(k, v). array_index k \<noteq> None) obj)
     @ filter (\<lambda>(k, v). array_index k = None) obj"

text \<open>The callback of \<open>reduce\<close> in \<open>getInputs\<close>, run over the names from position \<open>i\<close>
  on: \<open>if (fieldsValueArr[i]) obj[f] = fieldsValueArr[i]\<close>. A missing value and the
  empty string are both falsy.\<close>

fun reduce_fields :: "string list \<Rightarrow> js_object \<Rightarrow> string list \<Rightarrow> nat \<Rightarrow> js_object" where
  "reduce_fields fieldsValueArr obj [] i = obj"
| "reduce_fields fieldsValueArr obj (f # fs) i =
     reduce_fields fieldsValueArr
       (case nth_js fieldsValueArr (int i) of
          None \<Rightarrow> obj
        | Some v \<Rightarrow> if v \<noteq> [] then set_property obj f v else obj)
       fs (Suc i)"

text \<open>Lines 32 to 42 of \<open>getInputs\<close>: \<open>fieldNames\<close> and \<open>fieldsValue\<close> are the two inputs
  as \<open>core.getInput\<close> returned them; \<open>ret.fields\<close> stays undefined (\<open>None\<close>) when
  \<open>fieldNames\<close> is empty.\<close>

definition getInputs_fields :: "string \<Rightarrow> string \<Rightarrow> js_object option" where
  "getInputs_fields fieldNames fieldsValue =
     (let fieldsValueArr = split_comma fieldsValue in
      if fieldNames \<noteq> [] then Some (reduce_fields fieldsValueArr [] (split_comma fieldNames) 0)
      else None)"


text \<open>
  Remote sides to run the model on. Their errors are of two kinds: an error with the
  JSON text it is written as, and an object that refers to itself (\<open>e.self = e\<close>), on
  which \<open>JSON.stringify\<close> throws a TypeError. Each remote side keeps the list of the
  mutations it received (project id, item id, field id, value): the first accepts each
  one, the second throws an error that can be written on each one, the third throws a
  self-referring object on each one.
\<close>

datatype sample_error = Written string | SelfReferring

fun sample_stringify :: "sample_error stringify" where
  "sample_stringify (Written text) = Some text"
| "sample_stringify SelfReferring = None"

definition accepting :: "((string \<times> string \<times> string \<times> string) list, sample_error) transport" where
  "accepting w projectId itemId fieldId v = (Inr (Some itemId), w @ [(projectId, itemId, fieldId, v)])"

definition rejecting :: "((string \<times> string \<times> string \<times> string) list, sample_error) transport" where
  "rejecting w projectId itemId fieldId v =
     (Inl (Written ''{}''), w @ [(projectId, itemId, fieldId, v)])"

definition rejecting_unwritable ::
  "((string \<times> string \<times> string \<times> string) list, sample_error) transport" where
  "rejecting_unwritable w projectId itemId fieldId v =
     (Inl SelfReferring, w @ [(projectId, itemId, fieldId, v)])"

section \<open>A sample schema\<close>

text \<open>The schema of the README's example: a single-select field \<open>Status\<close> with the
  options Todo and Done, and an iteration field \<open>Iteration\<close> with one current and one
  completed iteration.\<close>

definition status_settings :: field_settings where
  "status_settings =
     \<lparr>configuration = None,
      options = Some [\<lparr>option_id = ''O1'', option_name = ''Todo''\<rparr>,
                      \<lparr>option_id = ''O2'', option_name = ''Done''\<rparr>]\<rparr>"

definition status_field :: field where
  "status_field = \<lparr>field_id = ''F1'', field_name = ''Status'', settings = Some status_settings\<rparr>"

definition sprint_configuration :: configuration where
  "sprint_configuration =
     \<lparr>iterations = [\<lparr>iteration_id = ''I9'', title = ''Sprint 5''\<rparr>],
      completed_iterations = [\<lparr>iteration_id = ''I1'', title = ''Sprint 1''\<rparr>]\<rparr>"

definition sprint_settings :: field_settings where
  "sprint_settings = \<lparr>configuration = Some sprint_configuration, options = None\<rparr>"

definition iteration_field :: field where
  "iteration_field = \<lparr>field_id = ''F2'', field_name = ''Iteration'', settings = Some sprint_settings\<rparr>"

text \<open>A single-select field whose option names look like bracketed values.\<close>

definition bracket_named_settings :: field_settings where
  "bracket_named_settings =
     \<lparr>configuration = None,
      options = Some [\<lparr>option_id = ''O7'', option_name = ''[x]''\<rparr>,
                      \<lparr>option_id = ''O8'', option_name = ''[0]''\<rparr>]\<rparr>"

definition bracket_named_field :: field where
  "bracket_named_field =
     \<lparr>field_id = ''F5'', field_name = ''Label'', settings = Some bracket_named_settings\<rparr>"

section \<open>Properties\<close>

subsection \<open>Decimal text is read back by parseInt\<close>

lemma code_unit_digit_char: "d < 10 \<Longrightarrow> code_unit (digit_char d) = 48 + d"
  by (simp add: code_unit_def digit_char_def)

lemma digit_value_digit_char: "d < 10 \<Longrightarrow> digit_value (digit_char d) = Some d"
  by (simp add: digit_value_def code_unit_digit_char)

lemma decimal_digit_iff: "is_radix_digit 10 c \<longleftrightarrow> 48 \<le> code_unit c \<and> code_unit c \<le> 57"
  by (auto simp: is_radix_digit_def digit_value_def Let_def)

lemma decimal_digit_char: "d < 10 \<Longrightarrow> is_radix_digit 10 (digit_char d)"
  by (simp add: decimal_digit_iff code_unit_digit_char)

lemma decimal_digit_neq:
  assumes "is_radix_digit 10 c" and "code_unit x < 48 \<or> 57 < code_unit x"
  shows "c \<noteq> x"
  using assms by (auto simp: decimal_digit_iff)

lemma decimal_digit_not_white: "is_radix_digit 10 c \<Longrightarrow> \<not> is_white c"
  by (auto simp: decimal_digit_iff is_white_def)

lemma decimal_unfold:
  "decimal n = (if n < 10 then [digit_char n] else decimal (n div 10) @ [digit_char (n mod 10)])"
  by (rule decimal.simps)



lemma decimal_not_Nil: "decimal n \<noteq> []"
  by (subst decimal_unfold) simp

lemma decimal_all_digits: "list_all (is_radix_digit 10) (decimal n)"
proof (induction n rule: decimal.induct)
  case (1 n)
  show ?case
  proof (cases "n < 10")
    case True
    then show ?thesis
      by (subst decimal_unfold) (simp add: decimal_digit_char)
  next
    case False
    moreover have "n mod 10 < 10" by simp
    ultimately show ?thesis
      using "1.IH" by (subst decimal_unfold) (simp add: decimal_digit_char)
  qed
qed

lemma radix_value_snoc:
  "radix_value R (Z @ [c]) = radix_value R Z * int R + (case digit_value c of None \<Rightarrow> 0 | Some d \<Rightarrow> int d)"
  by (simp add: radix_value_def)

lemma radix_value_decimal: "radix_value 10 (decimal n) = int n"
proof (induction n rule: decimal.induct)
  case (1 n)
  show ?case
  proof (cases "n < 10")
    case True
    then show ?thesis
      by (subst decimal_unfold) (simp add: radix_value_def digit_value_digit_char)
  next
    case False
    have "radix_value 10 (decimal n) = radix_value 10 (decimal (n div 10)) * 10 + int (n mod 10)"
      using False by (subst decimal_unfold) (simp add: radix_value_snoc digit_value_digit_char)
    also have "\<dots> = int (n div 10) * 10 + int (n mod 10)"
      using "1.IH" False by simp
    also have "\<dots> = int n" by (simp add: zdiv_int zmod_int)
    finally show ?thesis .
  qed
qed

text \<open>On a non-empty run of decimal digits, with an optional minus sign in front.\<close>

lemma no_hex_prefix:
  assumes "list_all (is_radix_digit 10) Z"
  shows "\<not> (case Z of a # b # _ \<Rightarrow> a = CHR ''0'' \<and> (b = CHR ''x'' \<or> b = CHR ''X'') | _ \<Rightarrow> False)"
proof (cases Z)
  case Nil
  then show ?thesis by simp
next
  case (Cons a Z')
  show ?thesis
  proof (cases Z')
    case Nil
    with Cons show ?thesis by simp
  next
    case (Cons b Z'')
    with assms \<open>Z = a # Z'\<close> have b: "is_radix_digit 10 b" by simp
    have "b \<noteq> CHR ''x''" "b \<noteq> CHR ''X''"
      by (rule decimal_digit_neq [OF b], simp add: code_unit_def)+
    with Cons \<open>Z = a # Z'\<close> show ?thesis by simp
  qed
qed

lemma parseInt_digits:
  assumes ne: "Z \<noteq> []" and dig: "list_all (is_radix_digit 10) Z"
  shows "parseInt Z = Some (radix_value 10 Z)"
proof -
  obtain a Z' where Z: "Z = a # Z'" using ne by (cases Z) auto
  with dig have a: "is_radix_digit 10 a" by simp
  have dw: "dropWhile is_white Z = Z"
    using Z decimal_digit_not_white [OF a] by simp
  have "a \<noteq> CHR ''+''" "a \<noteq> CHR ''-''"
    by (rule decimal_digit_neq [OF a], simp add: code_unit_def)+
  then have nosign: "\<not> startsWith Z CHR ''+''" "\<not> startsWith Z CHR ''-''"
    using Z by (simp_all add: startsWith_def)
  have tw: "takeWhile (is_radix_digit 10) Z = Z"
    using dig by (simp add: takeWhile_eq_all_conv list_all_iff)
  show ?thesis
    using nosign no_hex_prefix [OF dig] ne by (simp add: parseInt_def Let_def dw tw)
qed

lemma parseInt_minus_digits:
  assumes ne: "Z \<noteq> []" and dig: "list_all (is_radix_digit 10) Z"
  shows "parseInt (CHR ''-'' # Z) = Some (- radix_value 10 Z)"
proof -
  have nw: "\<not> is_white CHR ''-''" by (simp add: is_white_def code_unit_def)
  have tw: "takeWhile (is_radix_digit 10) Z = Z"
    using dig by (simp add: takeWhile_eq_all_conv list_all_iff)
  show ?thesis
    using nw no_hex_prefix [OF dig] ne by (simp add: parseInt_def Let_def startsWith_def tw)
qed

lemma parseInt_show_int: "parseInt (show_int i) = Some i"
proof (cases "i < 0")
  case True
  have "parseInt (CHR ''-'' # decimal (nat (- i))) = Some (- radix_value 10 (decimal (nat (- i))))"
    by (rule parseInt_minus_digits [OF decimal_not_Nil decimal_all_digits])
  with True show ?thesis by (simp add: show_int_def radix_value_decimal)
next
  case False
  have "parseInt (decimal (nat i)) = Some (radix_value 10 (decimal (nat i)))"
    by (rule parseInt_digits [OF decimal_not_Nil decimal_all_digits])
  with False show ?thesis by (simp add: show_int_def radix_value_decimal)
qed

lemma bracket_index_shape:
  "bracket_shaped (bracket_index i)" "slice_1_m1 (bracket_index i) = show_int i"
  by (simp_all add: bracket_shaped_def bracket_index_def startsWith_def endsWith_def slice_1_m1_def)


subsection \<open>Array.prototype.find and indexing\<close>

lemma find_first_match:
  assumes "\<exists>x \<in> set xs. P x"
  shows "\<exists>k<length xs. find P xs = Some (xs ! k) \<and> P (xs ! k) \<and> (\<forall>j<k. \<not> P (xs ! j))"
proof -
  from assms obtain x where "find P xs = Some x"
    by (cases "find P xs") (auto simp: find_None_iff)
  then show ?thesis by (auto simp: find_Some_iff)
qed

lemma find_no_match: "\<not> (\<exists>x \<in> set xs. P x) \<Longrightarrow> find P xs = None"
  by (simp add: find_None_iff)

lemma nth_js_map: "nth_js (map f xs) i = map_option f (nth_js xs i)"
  by (auto simp: nth_js_def nat_less_iff)

lemma find_iteration_bracket_index: "find_iteration cfg (bracket_index i) = nth_js (iterations cfg) i"
  by (simp add: find_iteration_def bracket_index_shape parseInt_show_int)

lemma find_option_bracket_index: "find_option opts (bracket_index i) = nth_js opts i"
  by (simp add: find_option_def bracket_index_shape parseInt_show_int)

lemma sample_settings:
  "settings status_field = Some status_settings" "settings iteration_field = Some sprint_settings"
  "configuration status_settings = None"
  "options status_settings = Some [\<lparr>option_id = ''O1'', option_name = ''Todo''\<rparr>,
                      \<lparr>option_id = ''O2'', option_name = ''Done''\<rparr>]"
  "configuration sprint_settings = Some sprint_configuration"
  "iterations sprint_configuration = [\<lparr>iteration_id = ''I9'', title = ''Sprint 5''\<rparr>]"
  "completed_iterations sprint_configuration = [\<lparr>iteration_id = ''I1'', title = ''Sprint 1''\<rparr>]"
  by (simp_all add: status_field_def iteration_field_def status_settings_def sprint_settings_def
      sprint_configuration_def)

lemma not_bracketed: "\<not> bracket_shaped ''DONE''" "\<not> bracket_shaped ''sprint 1''"
  "\<not> bracket_shaped ''Blocked''" "\<not> bracket_shaped ''Sprint 9''"
  by (simp_all add: bracket_shaped_def startsWith_def)


subsection \<open>Plain fields\<close>

text \<open>
  Claim C7. For a plain scalar field, one whose settings are null or carry neither an
  iteration configuration nor options, the value sent is the raw value, unchanged: no
  branch of \<open>run\<close> touches \<open>_value\<close>, and nothing checks that it is a number or a date.
\<close>

theorem plain_scalar_identity:
  assumes "settings field = None \<or>
           (\<exists>s. settings field = Some s \<and> configuration s = None \<and> options s = None)"
  shows "resolve_value field v = v"
  using assms by (auto simp: resolve_value_def)

theorem plain_scalar_identity_witness:
  "resolve_value \<lparr>field_id = ''F3'', field_name = ''Estimate'', settings = None\<rparr> ''3.5 days'' = ''3.5 days''
   \<and> resolve_value \<lparr>field_id = ''F4'', field_name = ''Due'',
         settings = Some \<lparr>configuration = None, options = None\<rparr>\<rparr> ''[0]'' = ''[0]''"
  using plain_scalar_identity [of "\<lparr>field_id = ''F3'', field_name = ''Estimate'', settings = None\<rparr>" "''3.5 days''"]
    plain_scalar_identity [of "\<lparr>field_id = ''F4'', field_name = ''Due'',
         settings = Some \<lparr>configuration = None, options = None\<rparr>\<rparr>" "''[0]''"]
  by simp

subsection \<open>Values written as an index\<close>

text \<open>
  Claim C4. For a field with options or with an iteration configuration, the value
  \<open>[i]\<close> (the decimal text of an integer \<open>i\<close> between brackets) resolves to the id of
  element \<open>i\<close> of the field's list when \<open>0 \<le> i < length\<close>: \<open>options[i].id\<close> for a
  single-select field, \<open>iterations[i].id\<close> for an iteration field, where the list is
  \<open>iterations\<close> only and \<open>completed_iterations\<close> is never indexed. For any other \<open>i\<close>
  nothing is found and the value stays \<open>[i]\<close>.
\<close>

theorem bracket_index_resolution:
  assumes "settings field = Some s"
  shows "(\<forall>cfg. configuration s = Some cfg \<longrightarrow>
            find_iteration cfg (bracket_index i) =
              (if 0 \<le> i \<and> i < int (length (iterations cfg)) then Some (iterations cfg ! nat i) else None)
          \<and> resolve_value field (bracket_index i) =
              (if 0 \<le> i \<and> i < int (length (iterations cfg)) then iteration_id (iterations cfg ! nat i)
               else bracket_index i))
       \<and> (\<forall>opts. configuration s = None \<and> options s = Some opts \<longrightarrow>
            find_option opts (bracket_index i) =
              (if 0 \<le> i \<and> i < int (length opts) then Some (opts ! nat i) else None)
          \<and> resolve_value field (bracket_index i) =
              (if 0 \<le> i \<and> i < int (length opts) then option_id (opts ! nat i)
               else bracket_index i))"
  using assms
  by (simp add: resolve_value_def find_iteration_bracket_index find_option_bracket_index nth_js_def)

theorem bracket_index_resolution_witness:
  "resolve_value status_field ''[1]'' = ''O2''
   \<and> resolve_value status_field ''[2]'' = ''[2]''
   \<and> resolve_value iteration_field ''[0]'' = ''I9''
   \<and> resolve_value iteration_field ''[1]'' = ''[1]''
   \<and> resolve_value iteration_field ''[-1]'' = ''[-1]''"
proof -
  have t: "bracket_index 0 = ''[0]''" "bracket_index 1 = ''[1]''" "bracket_index 2 = ''[2]''"
    "bracket_index (- 1) = ''[-1]''"
    by code_simp+
  show ?thesis
    using bracket_index_resolution [OF sample_settings(1), of 1]
      bracket_index_resolution [OF sample_settings(1), of 2]
      bracket_index_resolution [OF sample_settings(2), of 0]
      bracket_index_resolution [OF sample_settings(2), of 1]
      bracket_index_resolution [OF sample_settings(2), of "- 1"]
    by (simp add: sample_settings t)
qed


text \<open>
  Claim C9. For a field with options or with an iteration configuration, a value that
  starts with \<open>[\<close> and ends with \<open>]\<close> is read as an index and as nothing else. What is
  sent depends only on \<open>parseInt\<close> of the text between the brackets and on the ids of the
  list in their order: no name or title takes part, and the completed iterations do
  not either. When the text between the brackets is not a number, nothing is found and
  the bracketed text itself stays the value.
\<close>

theorem bracketed_value_is_index_only:
  assumes b: "bracket_shaped v" and f: "settings field = Some s"
  shows "(\<forall>cfg. configuration s = Some cfg \<longrightarrow>
            resolve_value field v =
              (case parseInt (slice_1_m1 v) of
                 None \<Rightarrow> v
               | Some i \<Rightarrow> (case nth_js (map iteration_id (iterations cfg)) i of None \<Rightarrow> v | Some x \<Rightarrow> x)))
       \<and> (\<forall>opts. configuration s = None \<and> options s = Some opts \<longrightarrow>
            resolve_value field v =
              (case parseInt (slice_1_m1 v) of
                 None \<Rightarrow> v
               | Some i \<Rightarrow> (case nth_js (map option_id opts) i of None \<Rightarrow> v | Some x \<Rightarrow> x)))"
  using b f
  by (auto simp: resolve_value_def find_iteration_def find_option_def nth_js_map
      split: option.splits)
theorem bracketed_value_is_index_only_witness:
  "resolve_value bracket_named_field ''[x]'' = ''[x]''
   \<and> resolve_value bracket_named_field ''[0]'' = ''O7''"
proof -
  have b: "bracket_shaped ''[x]''" "bracket_shaped ''[0]''" by code_simp+
  have p: "parseInt (slice_1_m1 ''[x]'') = None" "parseInt (slice_1_m1 ''[0]'') = Some 0"
    by code_simp+
  have s: "settings bracket_named_field = Some bracket_named_settings"
    by (simp add: bracket_named_field_def)
  show ?thesis
    using bracketed_value_is_index_only [OF b(1) s] bracketed_value_is_index_only [OF b(2) s]
    by (simp add: p bracket_named_settings_def nth_js_def)
qed

subsection \<open>Values written as a name\<close>

text \<open>
  Claim C5. For a single-select field and a value that is not bracketed, the value is
  compared with the option names after \<open>toLowerCase\<close> on both sides. When some option
  matches, the first one that does is found and its id is the value sent; when none
  matches, nothing is found (and the value stays as written).
\<close>

theorem option_name_match:
  assumes f: "settings field = Some s" "configuration s = None" "options s = Some opts"
    and nb: "\<not> bracket_shaped v"
  shows "(if \<exists>opt \<in> set opts. toLowerCase (option_name opt) = toLowerCase v
          then \<exists>k<length opts.
                 find_option opts v = Some (opts ! k)
               \<and> toLowerCase (option_name (opts ! k)) = toLowerCase v
               \<and> (\<forall>j<k. toLowerCase (option_name (opts ! j)) \<noteq> toLowerCase v)
               \<and> resolve_value field v = option_id (opts ! k)
          else find_option opts v = None \<and> resolve_value field v = v)"
proof (cases "\<exists>opt \<in> set opts. toLowerCase (option_name opt) = toLowerCase v")
  case True
  from find_first_match [OF True] obtain k where k: "k < length opts"
      "find (\<lambda>opt. toLowerCase (option_name opt) = toLowerCase v) opts = Some (opts ! k)"
      "toLowerCase (option_name (opts ! k)) = toLowerCase v"
      "\<forall>j<k. toLowerCase (option_name (opts ! j)) \<noteq> toLowerCase v"
    by blast
  have fo: "find_option opts v = Some (opts ! k)"
    using nb k(2) by (simp add: find_option_def)
  have "resolve_value field v = option_id (opts ! k)"
    using f fo by (simp add: resolve_value_def)
  with k fo True show ?thesis by auto
next
  case False
  have "find_option opts v = None"
    using nb find_no_match [OF False] by (simp add: find_option_def)
  with f False show ?thesis by (simp add: resolve_value_def)
qed

theorem option_name_match_witness:
  "resolve_value status_field ''DONE'' = ''O2'' \<and> resolve_value status_field ''Blocked'' = ''Blocked''"
proof -
  have l: "toLowerCase ''DONE'' = ''done''" "toLowerCase ''Done'' = ''done''"
    "toLowerCase ''Todo'' = ''todo''" "toLowerCase ''Blocked'' = ''blocked''"
    by code_simp+
  show ?thesis
    using option_name_match [OF sample_settings(1,3,4) not_bracketed(1)]
      option_name_match [OF sample_settings(1,3,4) not_bracketed(3)]
    by (auto simp: l less_Suc_eq)
qed


text \<open>
  Claim C6. For an iteration field and a value that is not bracketed, the titles of
  \<open>iterations\<close> are tried first: a match there is the result, whatever
  \<open>completed_iterations\<close> holds. When no title of \<open>iterations\<close> matches and one of
  \<open>completed_iterations\<close> does (both compared after \<open>toLowerCase\<close>), the first such
  completed iteration is found and its id is the value sent. When neither list has a
  match, nothing is found.
\<close>

theorem completed_iteration_fallback:
  assumes f: "settings field = Some s" "configuration s = Some cfg"
    and nb: "\<not> bracket_shaped v"
  shows "(if \<exists>it \<in> set (iterations cfg). toLowerCase (title it) = toLowerCase v
          then \<exists>k<length (iterations cfg).
                 find_iteration cfg v = Some (iterations cfg ! k)
               \<and> toLowerCase (title (iterations cfg ! k)) = toLowerCase v
               \<and> resolve_value field v = iteration_id (iterations cfg ! k)
          else if \<exists>it \<in> set (completed_iterations cfg). toLowerCase (title it) = toLowerCase v
          then \<exists>k<length (completed_iterations cfg).
                 find_iteration cfg v = Some (completed_iterations cfg ! k)
               \<and> toLowerCase (title (completed_iterations cfg ! k)) = toLowerCase v
               \<and> (\<forall>j<k. toLowerCase (title (completed_iterations cfg ! j)) \<noteq> toLowerCase v)
               \<and> resolve_value field v = iteration_id (completed_iterations cfg ! k)
          else find_iteration cfg v = None)"
proof -
  let ?P = "\<lambda>it. toLowerCase (title it) = toLowerCase v"
  show ?thesis
  proof (cases "\<exists>it \<in> set (iterations cfg). ?P it")
    case True
    from find_first_match [OF True] obtain k where k: "k < length (iterations cfg)"
        "find ?P (iterations cfg) = Some (iterations cfg ! k)" "?P (iterations cfg ! k)"
      by blast
    have fi: "find_iteration cfg v = Some (iterations cfg ! k)"
      using nb k(2) by (simp add: find_iteration_def)
    have "resolve_value field v = iteration_id (iterations cfg ! k)"
      using f fi by (simp add: resolve_value_def)
    with k fi True show ?thesis by auto
  next
    case False
    note active = find_no_match [OF False]
    show ?thesis
    proof (cases "\<exists>it \<in> set (completed_iterations cfg). ?P it")
      case True
      from find_first_match [OF True] obtain k where k: "k < length (completed_iterations cfg)"
          "find ?P (completed_iterations cfg) = Some (completed_iterations cfg ! k)"
          "?P (completed_iterations cfg ! k)"
          "\<forall>j<k. \<not> ?P (completed_iterations cfg ! j)"
        by blast
      have fi: "find_iteration cfg v = Some (completed_iterations cfg ! k)"
        using nb k(2) active by (simp add: find_iteration_def)
      have "resolve_value field v = iteration_id (completed_iterations cfg ! k)"
        using f fi by (simp add: resolve_value_def)
      with k fi True False show ?thesis by auto
    next
      case True': False
      have "find_iteration cfg v = None"
        using nb active find_no_match [OF True'] by (simp add: find_iteration_def)
      with False True' show ?thesis by simp
    qed
  qed
qed

theorem completed_iteration_fallback_witness:
  "resolve_value iteration_field ''sprint 1'' = ''I1''
   \<and> find_iteration sprint_configuration ''Sprint 9'' = None"
proof -
  have l: "toLowerCase ''sprint 1'' = ''sprint 1''" "toLowerCase ''Sprint 1'' = ''sprint 1''"
    "toLowerCase ''Sprint 5'' = ''sprint 5''" "toLowerCase ''Sprint 9'' = ''sprint 9''"
    by code_simp+
  show ?thesis
    using completed_iteration_fallback [OF sample_settings(2,5) not_bracketed(2)]
      completed_iteration_fallback [OF sample_settings(2,5) not_bracketed(4)]
    by (auto simp: l sample_settings)
qed


subsection \<open>The loop over the pairs\<close>

lemma run_body_not_found:
  "find_field projectFields name = None \<Longrightarrow>
   run_body str upd projectId itemId projectFields w (name, v) = (Some (FieldNotFound name), w)"
  by (simp add: run_body_def)

lemma run_body_found:
  "find_field projectFields name = Some field \<Longrightarrow>
   run_body str upd projectId itemId projectFields w (name, v) =
     (case upd w projectId itemId (field_id field) (resolve_value field v) of
        (Inr item, w') \<Rightarrow> (Some (Updated name (resolve_value field v) item), w')
      | (Inl err, w') \<Rightarrow>
          (case str err of
             Some text \<Rightarrow> (Some (UpdateFailed name (resolve_value field v) text), w')
           | None \<Rightarrow> (None, w')))"
  by (simp add: run_body_def)

lemma run_body_state:
  "find_field projectFields name = Some field \<Longrightarrow>
   snd (run_body str upd projectId itemId projectFields w (name, v)) =
     snd (upd w projectId itemId (field_id field) (resolve_value field v))"
  by (auto simp: run_body_def split: prod.splits sum.splits option.splits)


lemma run_body_writes:
  assumes "\<forall>err. str err \<noteq> None"
  shows "\<exists>out. fst (run_body str upd projectId itemId projectFields w p) = Some out"
proof (cases p)
  case (Pair name v)
  show ?thesis
  proof (cases "find_field projectFields name")
    case None
    with Pair show ?thesis by (simp add: run_body_def)
  next
    case (Some field)
    obtain r w' where u: "upd w projectId itemId (field_id field) (resolve_value field v) = (r, w')"
      by (cases "upd w projectId itemId (field_id field) (resolve_value field v)")
    show ?thesis
    proof (cases r)
      case (Inl err)
      from assms have "str err \<noteq> None" by (rule spec)
      then obtain written where "str err = Some written" by (cases "str err") simp_all
      with Pair Some u Inl show ?thesis by (simp add: run_body_def)
    next
      case (Inr item)
      with Pair Some u show ?thesis by (simp add: run_body_def)
    qed
  qed
qed

lemma run_loop_log:
  "run_loop str upd projectId itemId projectFields w log ps =
     (log @ fst (run_loop str upd projectId itemId projectFields w [] ps),
      snd (run_loop str upd projectId itemId projectFields w [] ps))"
proof (induction ps arbitrary: w log)
  case Nil
  show ?case by simp
next
  case (Cons p ps)
  obtain r w' where b: "run_body str upd projectId itemId projectFields w p = (r, w')"
    by (cases "run_body str upd projectId itemId projectFields w p")
  show ?case
  proof (cases r)
    case None
    with b show ?thesis by simp
  next
    case (Some out)
    with b show ?thesis
      using Cons.IH [of w' "log @ [out]"] Cons.IH [of w' "[out]"] by simp
  qed
qed

lemma run_loop_written:
  "run_body str upd projectId itemId projectFields w p = (Some out, w') \<Longrightarrow>
   run_loop str upd projectId itemId projectFields w [] (p # ps) =
     (out # fst (run_loop str upd projectId itemId projectFields w' [] ps),
      snd (run_loop str upd projectId itemId projectFields w' [] ps))"
  using run_loop_log [of str upd projectId itemId projectFields w' "[out]" ps] by simp

lemma run_loop_thrown:
  "run_body str upd projectId itemId projectFields w p = (None, w') \<Longrightarrow>
   run_loop str upd projectId itemId projectFields w [] (p # ps) = ([], w', Aborted)"
  by simp


lemma run_loop_completes:
  assumes "\<forall>err. str err \<noteq> None"
  shows "snd (snd (run_loop str upd projectId itemId projectFields w [] ps)) = Completed"
proof (induction ps arbitrary: w)
  case Nil
  show ?case by simp
next
  case (Cons p ps)
  from run_body_writes [OF assms, of upd projectId itemId projectFields w p]
  obtain out w1 where b: "run_body str upd projectId itemId projectFields w p = (Some out, w1)"
    by (cases "run_body str upd projectId itemId projectFields w p") auto
  show ?case
    unfolding run_loop_written [OF b] using Cons.IH [of w1] by simp
qed

text \<open>
  Claim C3. The loop is meant to write one outcome per pair, in order, and to go on
  after a pair whose field is not found or whose update failed: the update stands in
  \<open>try\<close>/\<open>catch\<close>. The code does so as long as the error caught can be written by
  \<open>JSON.stringify\<close>. When the remote side throws an error that cannot (here an object
  that refers to itself), the \<open>catch\<close> block throws in turn: for the two pairs below the
  first update is sent, no outcome is written, and the second pair is never processed.
  On the same pairs, errors that can be written give one failed outcome per pair.
\<close>

theorem unwritable_error_aborts_loop:
  "run_loop sample_stringify rejecting_unwritable ''P'' ''I'' [status_field, iteration_field] [] []
      [(''Status'', ''Todo''), (''Iteration'', ''[0]'')]
     = ([], [(''P'', ''I'', ''F1'', ''O1'')], Aborted)
   \<and> run_loop sample_stringify rejecting ''P'' ''I'' [status_field, iteration_field] [] []
      [(''Status'', ''Todo''), (''Iteration'', ''[0]'')]
     = ([UpdateFailed ''Status'' ''O1'' ''{}'', UpdateFailed ''Iteration'' ''I9'' ''{}''],
        [(''P'', ''I'', ''F1'', ''O1''), (''P'', ''I'', ''F2'', ''I9'')], Completed)"
  by code_simp


subsection \<open>Matching a field by name\<close>

text \<open>
  Claim C1, as the code has it. The field of a pair is the first field of the schema
  whose name is the requested name character for character (\<open>===\<close>: letter case
  counts). No field is found exactly when no field has that very name, and then the
  pair ends as "field not found" with nothing sent to the remote side.
\<close>

theorem field_match_is_exact:
  "(find_field projectFields name = None \<longleftrightarrow> (\<forall>f \<in> set projectFields. field_name f \<noteq> name))
   \<and> (\<forall>f. find_field projectFields name = Some f \<longrightarrow>
         (\<exists>k<length projectFields. projectFields ! k = f \<and> field_name f = name
            \<and> (\<forall>j<k. field_name (projectFields ! j) \<noteq> name)))
   \<and> ((\<forall>f \<in> set projectFields. field_name f \<noteq> name) \<longrightarrow>
         run_body str upd projectId itemId projectFields w (name, v) = (Some (FieldNotFound name), w))"
proof -
  have none: "find_field projectFields name = None \<longleftrightarrow> (\<forall>f \<in> set projectFields. field_name f \<noteq> name)"
    by (auto simp: find_field_def find_None_iff)
  have some: "\<forall>f. find_field projectFields name = Some f \<longrightarrow>
         (\<exists>k<length projectFields. projectFields ! k = f \<and> field_name f = name
            \<and> (\<forall>j<k. field_name (projectFields ! j) \<noteq> name))"
    by (fastforce simp: find_field_def find_Some_iff)
  show ?thesis
    using none some run_body_not_found [of projectFields name str upd projectId itemId w v] by blast
qed

theorem field_match_is_exact_witness:
  "find_field [iteration_field, status_field] ''Status'' = Some status_field
   \<and> run_body sample_stringify accepting ''P'' ''I'' [iteration_field, status_field] [] (''Stat'', ''Todo'')
       = (Some (FieldNotFound ''Stat''), [])"
proof -
  have e: "find_field [iteration_field, status_field] ''Status'' = Some status_field"
    by code_simp
  have n: "\<forall>f \<in> set [iteration_field, status_field]. field_name f \<noteq> ''Stat''"
    by (simp add: iteration_field_def status_field_def)
  show ?thesis
    using field_match_is_exact [of "[iteration_field, status_field]" "''Stat''" sample_stringify
        accepting "''P''" "''I''" "[]" "''Todo''"] n e
    by simp
qed


text \<open>Claim C1 as stated fails: the name \<open>status\<close> differs from the field name \<open>Status\<close>
  only in letter case, and no field is found.\<close>

theorem field_match_case_counterexample:
  "toLowerCase ''status'' = toLowerCase (field_name status_field)
   \<and> find_field [status_field] ''status'' = None
   \<and> run_body sample_stringify accepting ''P'' ''I'' [status_field] [] (''status'', ''Todo'')
       = (Some (FieldNotFound ''status''), [])"
  by code_simp


subsection \<open>An iteration value that resolves to nothing\<close>

text \<open>
  Claim C2, as the code has it. For an iteration field of the schema and a value that
  is not a valid bracketed index and, when it is not bracketed, matches no title of
  \<open>iterations\<close> or \<open>completed_iterations\<close>, no iteration is found, and the update is
  still sent, once, with the value as written: the remote side is left in the state
  that mutation leaves it in, and what is written for the pair is what the remote side
  answered to it.
\<close>

theorem unresolved_iteration_sends_raw_value:
  assumes f: "find_field projectFields name = Some field" "settings field = Some s"
      "configuration s = Some cfg"
    and idx: "bracket_shaped v \<longrightarrow>
               (case parseInt (slice_1_m1 v) of
                  None \<Rightarrow> True
                | Some i \<Rightarrow> \<not> (0 \<le> i \<and> i < int (length (iterations cfg))))"
    and ttl: "\<not> bracket_shaped v \<longrightarrow>
               (\<forall>it \<in> set (iterations cfg) \<union> set (completed_iterations cfg).
                  toLowerCase (title it) \<noteq> toLowerCase v)"
  shows "find_iteration cfg v = None
       \<and> run_body str upd projectId itemId projectFields w (name, v) =
           (case upd w projectId itemId (field_id field) v of
              (Inr item, w') \<Rightarrow> (Some (Updated name v item), w')
            | (Inl err, w') \<Rightarrow>
                (case str err of
                   Some text \<Rightarrow> (Some (UpdateFailed name v text), w')
                 | None \<Rightarrow> (None, w')))
       \<and> snd (run_body str upd projectId itemId projectFields w (name, v)) =
           snd (upd w projectId itemId (field_id field) v)"
proof -
  have none: "find_iteration cfg v = None"
  proof (cases "bracket_shaped v")
    case True
    with idx show ?thesis
      by (auto simp: find_iteration_def nth_js_def split: option.splits)
  next
    case False
    with ttl have "find (\<lambda>i. toLowerCase (title i) = toLowerCase v) (iterations cfg) = None"
      "find (\<lambda>i. toLowerCase (title i) = toLowerCase v) (completed_iterations cfg) = None"
      by (auto simp: find_None_iff)
    with False show ?thesis by (simp add: find_iteration_def)
  qed
  then have rv: "resolve_value field v = v"
    using f by (simp add: resolve_value_def)
  have body: "run_body str upd projectId itemId projectFields w (name, v) =
           (case upd w projectId itemId (field_id field) v of
              (Inr item, w') \<Rightarrow> (Some (Updated name v item), w')
            | (Inl err, w') \<Rightarrow>
                (case str err of
                   Some text \<Rightarrow> (Some (UpdateFailed name v text), w')
                 | None \<Rightarrow> (None, w')))"
    unfolding run_body_found [OF f(1)] rv by (rule refl)
  have state: "snd (run_body str upd projectId itemId projectFields w (name, v)) =
           snd (upd w projectId itemId (field_id field) v)"
    using run_body_state [OF f(1), of str upd projectId itemId w v] by (simp only: rv)
  from none body state show ?thesis by (intro conjI)
qed

theorem unresolved_iteration_sends_raw_value_witness:
  "run_body sample_stringify accepting ''P'' ''I'' [status_field, iteration_field] []
      (''Iteration'', ''Sprint 9'')
     = (Some (Updated ''Iteration'' ''Sprint 9'' (Some ''I'')), [(''P'', ''I'', ''F2'', ''Sprint 9'')])
   \<and> run_body sample_stringify rejecting ''P'' ''I'' [status_field, iteration_field] []
      (''Iteration'', ''[7]'')
     = (Some (UpdateFailed ''Iteration'' ''[7]'' ''{}''), [(''P'', ''I'', ''F2'', ''[7]'')])"
proof -
  have f: "find_field [status_field, iteration_field] ''Iteration'' = Some iteration_field"
    by code_simp
  have b: "\<not> bracket_shaped ''Sprint 9''" "bracket_shaped ''[7]''"
    "parseInt (slice_1_m1 ''[7]'') = Some 7"
    by code_simp+
  have l: "toLowerCase ''Sprint 9'' = ''sprint 9''" "toLowerCase ''Sprint 1'' = ''sprint 1''"
    "toLowerCase ''Sprint 5'' = ''sprint 5''"
    by code_simp+
  have i: "field_id iteration_field = ''F2''" by (simp add: iteration_field_def)
  have "run_body sample_stringify accepting ''P'' ''I'' [status_field, iteration_field] []
      (''Iteration'', ''Sprint 9'')
     = (Some (Updated ''Iteration'' ''Sprint 9'' (Some ''I'')), [(''P'', ''I'', ''F2'', ''Sprint 9'')])"
    using unresolved_iteration_sends_raw_value [OF f sample_settings(2,5), of "''Sprint 9''"
        sample_stringify accepting "''P''" "''I''" "[]"]
    by (simp add: b l sample_settings i accepting_def)
  moreover have "run_body sample_stringify rejecting ''P'' ''I'' [status_field, iteration_field] []
      (''Iteration'', ''[7]'')
     = (Some (UpdateFailed ''Iteration'' ''[7]'' ''{}''), [(''P'', ''I'', ''F2'', ''[7]'')])"
    using unresolved_iteration_sends_raw_value [OF f sample_settings(2,5), of "''[7]''"
        sample_stringify rejecting "''P''" "''I''" "[]"]
    by (simp add: b l sample_settings i rejecting_def)
  ultimately show ?thesis by simp
qed


text \<open>Claim C2 as stated fails: \<open>Sprint 9\<close> is not bracketed and matches no title of
  either list, and the mutation is sent with \<open>Sprint 9\<close> as its value.\<close>

theorem unresolved_iteration_counterexample:
  "\<not> bracket_shaped ''Sprint 9''
   \<and> find (\<lambda>i. toLowerCase (title i) = toLowerCase ''Sprint 9'') (iterations sprint_configuration) = None
   \<and> find (\<lambda>i. toLowerCase (title i) = toLowerCase ''Sprint 9'')
        (completed_iterations sprint_configuration) = None
   \<and> run_loop sample_stringify accepting ''P'' ''I'' [status_field, iteration_field] [] []
        [(''Iteration'', ''Sprint 9'')]
      = ([Updated ''Iteration'' ''Sprint 9'' (Some ''I'')], [(''P'', ''I'', ''F2'', ''Sprint 9'')],
         Completed)"
  by code_simp


subsection \<open>Object.entries\<close>

lemma set_object_entries: "set (object_entries obj) = set obj"
  by (auto simp: object_entries_def)




subsection \<open>The reduce of getInputs\<close>



lemma set_property_lookup:
  "map_of (set_property obj k v) n = (if n = k \<and> k \<noteq> ''__proto__'' then Some v else map_of obj n)"
  by (simp add: set_property_def update_conv')

lemma set_update_subset: "set (AList.update k v al) \<subseteq> insert (k, v) (set al)"
  by (induction al) auto

lemma set_property_values:
  "(n, x) \<in> set (set_property obj k v) \<Longrightarrow> x = v \<or> (n, x) \<in> set obj"
  using set_update_subset [of k v obj] by (auto simp: set_property_def split: if_splits)

text \<open>One step of the callback, with the test on \<open>fieldsValueArr[i]\<close> written out.\<close>

lemma reduce_fields_Cons:
  "reduce_fields vals obj (f # fs) i =
     reduce_fields vals
       (if i < length vals \<and> vals ! i \<noteq> [] then set_property obj f (vals ! i) else obj) fs (Suc i)"
  by (simp add: nth_js_def)


lemma reduce_fields_values:
  "\<forall>(n, x) \<in> set obj. x \<noteq> [] \<Longrightarrow> \<forall>(n, x) \<in> set (reduce_fields vals obj fs i). x \<noteq> []"
proof (induction fs arbitrary: obj i)
  case Nil
  then show ?case by simp
next
  case (Cons f fs)
  show ?case
    unfolding reduce_fields_Cons
  proof (rule Cons.IH)
    show "\<forall>(n, x) \<in> set (if i < length vals \<and> vals ! i \<noteq> [] then set_property obj f (vals ! i) else obj). x \<noteq> []"
      using Cons.prems by (auto dest: set_property_values)
  qed
qed

lemma reduce_fields_untouched:
  assumes "n = ''__proto__'' \<or> (\<forall>k<length fs. fs ! k = n \<longrightarrow> \<not> (i + k < length vals \<and> vals ! (i + k) \<noteq> []))"
  shows "map_of (reduce_fields vals obj fs i) n = map_of obj n"
  using assms
proof (induction fs arbitrary: obj i)
  case Nil
  then show ?case by simp
next
  case (Cons f fs)
  have rest: "n = ''__proto__'' \<or> (\<forall>k<length fs. fs ! k = n \<longrightarrow> \<not> (Suc i + k < length vals \<and> vals ! (Suc i + k) \<noteq> []))"
  proof (cases "n = ''__proto__''")
    case True
    then show ?thesis by simp
  next
    case False
    { fix k assume k: "k < length fs" "fs ! k = n"
      from Cons.prems False have "Suc k < length (f # fs) \<longrightarrow> (f # fs) ! Suc k = n \<longrightarrow>
            \<not> (i + Suc k < length vals \<and> vals ! (i + Suc k) \<noteq> [])"
        by blast
      with k have "\<not> (Suc i + k < length vals \<and> vals ! (Suc i + k) \<noteq> [])" by simp }
    then show ?thesis by blast
  qed
  have first: "map_of (if i < length vals \<and> vals ! i \<noteq> [] then set_property obj f (vals ! i) else obj) n
      = map_of obj n"
  proof (cases "n = ''__proto__''")
    case True
    then show ?thesis by (auto simp: set_property_lookup)
  next
    case False
    with Cons.prems have "0 < length (f # fs) \<longrightarrow> (f # fs) ! 0 = n \<longrightarrow>
          \<not> (i + 0 < length vals \<and> vals ! (i + 0) \<noteq> [])"
      by blast
    then show ?thesis by (auto simp: set_property_lookup)
  qed
  show ?case
    unfolding reduce_fields_Cons using Cons.IH [OF rest] first by simp
qed

lemma reduce_fields_last_value:
  assumes "k < length fs" "fs ! k \<noteq> ''__proto__''"
    and "i + k < length vals" "vals ! (i + k) \<noteq> []"
    and "\<forall>j<length fs. k < j \<and> fs ! j = fs ! k \<longrightarrow> \<not> (i + j < length vals \<and> vals ! (i + j) \<noteq> [])"
  shows "map_of (reduce_fields vals obj fs i) (fs ! k) = Some (vals ! (i + k))"
  using assms
proof (induction fs arbitrary: obj i k)
  case Nil
  then show ?case by simp
next
  case (Cons f fs)
  show ?case
  proof (cases k)
    case 0
    have later: "\<forall>j<length fs. fs ! j = f \<longrightarrow> \<not> (Suc i + j < length vals \<and> vals ! (Suc i + j) \<noteq> [])"
    proof (intro allI impI)
      fix j assume j: "j < length fs" "fs ! j = f"
      from Cons.prems(5) have "Suc j < length (f # fs) \<longrightarrow> k < Suc j \<and> (f # fs) ! Suc j = (f # fs) ! k \<longrightarrow>
            \<not> (i + Suc j < length vals \<and> vals ! (i + Suc j) \<noteq> [])"
        by blast
      with j 0 show "\<not> (Suc i + j < length vals \<and> vals ! (Suc i + j) \<noteq> [])" by simp
    qed
    have "map_of (reduce_fields vals (set_property obj f (vals ! i)) fs (Suc i)) f
        = map_of (set_property obj f (vals ! i)) f"
      by (rule reduce_fields_untouched) (use later in blast)
    also have "\<dots> = Some (vals ! i)"
      using Cons.prems(2) 0 by (simp add: set_property_lookup)
    finally show ?thesis
      unfolding reduce_fields_Cons using Cons.prems(3,4) 0 by simp
  next
    case (Suc k')
    have later: "\<forall>j<length fs. k' < j \<and> fs ! j = fs ! k' \<longrightarrow>
          \<not> (Suc i + j < length vals \<and> vals ! (Suc i + j) \<noteq> [])"
    proof (intro allI impI)
      fix j assume j: "j < length fs" "k' < j \<and> fs ! j = fs ! k'"
      from Cons.prems(5) have "Suc j < length (f # fs) \<longrightarrow> k < Suc j \<and> (f # fs) ! Suc j = (f # fs) ! k \<longrightarrow>
            \<not> (i + Suc j < length vals \<and> vals ! (i + Suc j) \<noteq> [])"
        by blast
      with j Suc show "\<not> (Suc i + j < length vals \<and> vals ! (Suc i + j) \<noteq> [])" by simp
    qed
    have "map_of (reduce_fields vals
            (if i < length vals \<and> vals ! i \<noteq> [] then set_property obj f (vals ! i) else obj) fs (Suc i))
          (fs ! k') = Some (vals ! (Suc i + k'))"
      by (rule Cons.IH) (use Cons.prems Suc later in simp_all)
    then show ?thesis
      unfolding reduce_fields_Cons using Suc by simp
  qed
qed


lemma getInputs_fields_Some:
  "fieldNames \<noteq> [] \<Longrightarrow>
   getInputs_fields fieldNames fieldsValue =
     Some (reduce_fields (split_comma fieldsValue) [] (split_comma fieldNames) 0)"
  by (simp add: getInputs_fields_def)

subsection \<open>Which positions reach the request\<close>

text \<open>
  Claim C10, as the code has it. Take a non-empty names input and a position \<open>i\<close> of
  its comma-separated list whose name is not \<open>__proto__\<close> and does not come again at a
  later position that has a non-empty value. Then the pair of position \<open>i\<close> (its name
  with the value at position \<open>i\<close>) is among the entries of the request if and only if
  the value at position \<open>i\<close> exists and is not the empty string: an empty value drops
  the position just as a missing one does.
\<close>

theorem pair_kept_iff_value_present:
  fixes fieldNames fieldsValue :: string
  defines "names \<equiv> split_comma fieldNames" and "vals \<equiv> split_comma fieldsValue"
  assumes ne: "fieldNames \<noteq> []" and i: "i < length names"
    and np: "names ! i \<noteq> ''__proto__''"
    and later: "\<forall>j<length names. i < j \<and> names ! j = names ! i \<longrightarrow> \<not> (j < length vals \<and> vals ! j \<noteq> [])"
  shows "\<exists>obj. getInputs_fields fieldNames fieldsValue = Some obj
           \<and> ((\<exists>v. nth_js vals (int i) = Some v \<and> (names ! i, v) \<in> set (object_entries obj))
                \<longleftrightarrow> (i < length vals \<and> vals ! i \<noteq> []))"
proof -
  let ?obj = "reduce_fields vals [] names 0"
  have g: "getInputs_fields fieldNames fieldsValue = Some ?obj"
    using ne by (simp add: getInputs_fields_Some names_def vals_def)
  have "(\<exists>v. nth_js vals (int i) = Some v \<and> (names ! i, v) \<in> set (object_entries ?obj))
        \<longleftrightarrow> (i < length vals \<and> vals ! i \<noteq> [])"
  proof
    assume "\<exists>v. nth_js vals (int i) = Some v \<and> (names ! i, v) \<in> set (object_entries ?obj)"
    then obtain v where v: "nth_js vals (int i) = Some v" "(names ! i, v) \<in> set ?obj"
      by (auto simp: set_object_entries)
    have "\<forall>(n, x) \<in> set ?obj. x \<noteq> []"
      by (rule reduce_fields_values) simp
    with v(2) have "v \<noteq> []" by blast
    with v(1) show "i < length vals \<and> vals ! i \<noteq> []"
      by (auto simp: nth_js_def split: if_splits)
  next
    assume a: "i < length vals \<and> vals ! i \<noteq> []"
    have "map_of ?obj (names ! i) = Some (vals ! (0 + i))"
      by (rule reduce_fields_last_value) (use i np a later in simp_all)
    then have "(names ! i, vals ! i) \<in> set (object_entries ?obj)"
      by (simp add: set_object_entries map_of_SomeD)
    moreover have "nth_js vals (int i) = Some (vals ! i)"
      using a by (simp add: nth_js_def)
    ultimately show "\<exists>v. nth_js vals (int i) = Some v \<and> (names ! i, v) \<in> set (object_entries ?obj)"
      by blast
  qed
  with g show ?thesis by blast
qed


theorem pair_kept_iff_value_present_witness:
  "(\<exists>obj. getInputs_fields ''Status,Priority'' ''Todo,'' = Some obj
      \<and> ((\<exists>v. nth_js (split_comma ''Todo,'') (int 1) = Some v
              \<and> (split_comma ''Status,Priority'' ! 1, v) \<in> set (object_entries obj))
           \<longleftrightarrow> (1 < length (split_comma ''Todo,'') \<and> split_comma ''Todo,'' ! 1 \<noteq> [])))
   \<and> getInputs_fields ''Status,Priority'' ''Todo,'' = Some [(''Status'', ''Todo'')]
   \<and> getInputs_fields ''Status,Priority'' ''Todo'' = Some [(''Status'', ''Todo'')]"
proof -
  have n: "split_comma ''Status,Priority'' = [''Status'', ''Priority'']" by code_simp
  have e: "getInputs_fields ''Status,Priority'' ''Todo,'' = Some [(''Status'', ''Todo'')]"
    "getInputs_fields ''Status,Priority'' ''Todo'' = Some [(''Status'', ''Todo'')]"
    by code_simp+
  have "\<exists>obj. getInputs_fields ''Status,Priority'' ''Todo,'' = Some obj
      \<and> ((\<exists>v. nth_js (split_comma ''Todo,'') (int 1) = Some v
              \<and> (split_comma ''Status,Priority'' ! 1, v) \<in> set (object_entries obj))
           \<longleftrightarrow> (1 < length (split_comma ''Todo,'') \<and> split_comma ''Todo,'' ! 1 \<noteq> []))"
    by (rule pair_kept_iff_value_present) (simp_all add: n)
  with e show ?thesis by simp
qed


text \<open>Claim C10 as stated fails where a name comes twice: with names \<open>Status,Status\<close>
  and values \<open>Todo,Done\<close> the value at position 0 exists and is not empty, and the pair
  (\<open>Status\<close>, \<open>Todo\<close>) is not in the request.\<close>

theorem pair_kept_counterexample:
  "split_comma ''Status,Status'' ! 0 = ''Status''
   \<and> nth_js (split_comma ''Todo,Done'') 0 = Some ''Todo''
   \<and> getInputs_fields ''Status,Status'' ''Todo,Done'' = Some [(''Status'', ''Done'')]
   \<and> object_entries [(''Status'', ''Done'')] = [(''Status'', ''Done'')]
   \<and> (''Status'', ''Todo'') \<notin> set (object_entries [(''Status'', ''Done'')])"
  by code_simp




subsection \<open>A name given more than once\<close>





end
